theory Spec2Isabelle
  imports Main
begin

section \<open>JavaScript strings\<close>

text \<open>
  A JavaScript string is a sequence of UTF-16 code units.  A code unit is modelled by its
  number; the model admits every natural number, and a number above 65535 behaves like any
  other character that is neither white space nor punctuation.  \<open>js\<close> turns a literal
  into the code units of its characters.
\<close>

type_synonym jschar = nat
type_synonym jsstring = "jschar list"

definition js :: "string \<Rightarrow> jsstring" where
  "js s = map of_char s"

text \<open>
  The class \<^verbatim>\<open>\s\<close> of a regular expression and the characters removed by
  \<^verbatim>\<open>String.prototype.trim\<close> are the same set: WhiteSpace and LineTerminator of
  ECMAScript (TAB, LF, VT, FF, CR, SP, NBSP, U+1680, U+2000..U+200A, U+2028, U+2029, U+202F,
  U+205F, U+3000, U+FEFF).
\<close>

definition is_space :: "jschar \<Rightarrow> bool" where
  "is_space c \<longleftrightarrow>
     c = 9 \<or> c = 10 \<or> c = 11 \<or> c = 12 \<or> c = 13 \<or> c = 32 \<or> c = 160 \<or> c = 5760 \<or>
     (8192 \<le> c \<and> c \<le> 8202) \<or> c = 8232 \<or> c = 8233 \<or> c = 8239 \<or> c = 8287 \<or>
     c = 12288 \<or> c = 65279"

text \<open>The dot of a regular expression (without the \<^verbatim>\<open>s\<close> flag) matches every code
  unit but a line terminator: LF, CR, U+2028, U+2029.\<close>

definition is_line_terminator :: "jschar \<Rightarrow> bool" where
  "is_line_terminator c \<longleftrightarrow> c = 10 \<or> c = 13 \<or> c = 8232 \<or> c = 8233"

text \<open>The class \<^verbatim>\<open>[.,?!]\<close>.\<close>

definition is_punct :: "jschar \<Rightarrow> bool" where
  "is_punct c \<longleftrightarrow> c = 46 \<or> c = 44 \<or> c = 63 \<or> c = 33"

text \<open>The class \<^verbatim>\<open>[.!?]\<close>.\<close>

definition is_terminal :: "jschar \<Rightarrow> bool" where
  "is_terminal c \<longleftrightarrow> c = 46 \<or> c = 33 \<or> c = 63"

definition trim :: "jsstring \<Rightarrow> jsstring" where
  "trim s = rev (dropWhile is_space (rev (dropWhile is_space s)))"

text \<open>\<^verbatim>\<open>Array.prototype.join(' ')\<close>.\<close>

fun join :: "jsstring list \<Rightarrow> jsstring" where
  "join [] = []"
| "join [x] = x"
| "join (x # y # zs) = x @ 32 # join (y # zs)"

text \<open>
  One attempt of \<^verbatim>\<open>/\s*([.,?!])\s*/\<close> at the start of \<open>s\<close>.  The greedy
  \<^verbatim>\<open>\s*\<close> takes the whole run of white space; giving some of it back leaves a white
  space character where the punctuation mark has to be, so the attempt succeeds exactly
  when the run is followed by a punctuation mark.  The result is the captured mark and
  the input left after the match.
\<close>

definition match_punct :: "jsstring \<Rightarrow> (jschar \<times> jsstring) option" where
  "match_punct s =
     (case dropWhile is_space s of
        [] \<Rightarrow> None
      | p # rest \<Rightarrow> if is_punct p then Some (p, dropWhile is_space rest) else None)"

text \<open>
  \<^verbatim>\<open>.replace(/\s*([.,?!])\s*/g, '$1')\<close>: the matches are found from left to right;
  a match is replaced by its captured mark and the search goes on after it, a position with
  no match keeps its character and the search goes on one character later.
\<close>

function strip_punct_space :: "jsstring \<Rightarrow> jsstring" where
  "strip_punct_space [] = []"
| "strip_punct_space (c # cs) =
     (case match_punct (c # cs) of
        Some (p, rest) \<Rightarrow> p # strip_punct_space rest
      | None \<Rightarrow> c # strip_punct_space cs)"
  by pat_completeness auto
termination
proof (relation "measure length", goal_cases)
  case 1
  show ?case by simp
next
  case (2 c cs)
  show ?case by simp
next
  case (3 c cs x2 p rest)
  then obtain r where d: "dropWhile is_space (c # cs) = p # r"
    and r: "rest = dropWhile is_space r"
    by (auto simp: match_punct_def split: list.splits if_splits)
  have "length rest \<le> length r"
    unfolding r by (rule length_dropWhile_le)
  moreover have "length (p # r) \<le> length (c # cs)"
    unfolding d[symmetric] by (rule length_dropWhile_le)
  ultimately show ?case by simp
qed

text \<open>
  \<^verbatim>\<open>.replace(/([.,?!])(?=.)/g, '$1 ')\<close>: a space is put after every punctuation mark
  that is followed by a character other than a line terminator.
\<close>

fun space_after_punct :: "jsstring \<Rightarrow> jsstring" where
  "space_after_punct [] = []"
| "space_after_punct (c # cs) =
     (if is_punct c \<and> (case cs of [] \<Rightarrow> False | d # _ \<Rightarrow> \<not> is_line_terminator d)
      then c # 32 # space_after_punct cs
      else c # space_after_punct cs)"

text \<open>The chain \<^verbatim>\<open>.replace(...).replace(...).trim()\<close> that computes
  \<^verbatim>\<open>formattedText\<close> from \<^verbatim>\<open>text\<close>.\<close>

definition formatText :: "jsstring \<Rightarrow> jsstring" where
  "formatText t = trim (space_after_punct (strip_punct_space t))"

text \<open>\<^verbatim>\<open>s.match(/^[.,?!]/)\<close> and \<^verbatim>\<open>/[.!?]$/.test(s)\<close>.\<close>

definition starts_with_punct :: "jsstring \<Rightarrow> bool" where
  "starts_with_punct s = (case s of [] \<Rightarrow> False | c # _ \<Rightarrow> is_punct c)"

definition ends_with_terminal :: "jsstring \<Rightarrow> bool" where
  "ends_with_terminal s = (s \<noteq> [] \<and> is_terminal (last s))"

section \<open>Recognition events\<close>

text \<open>
  The \<^verbatim>\<open>message\<close> field of a \<^verbatim>\<open>RealtimeServerMessage\<close>; the listeners tell
  three values apart and ignore the others.
\<close>

datatype message_kind = RecognitionStarted | AddTranscript | AddPartialTranscript | OtherMessage

record alternative =
  content :: jsstring
  speaker :: "jsstring option"

record TranscriptResult =
  alternatives :: "alternative list"

record TranscriptMessage =
  message :: message_kind
  results :: "TranscriptResult list"

text \<open>Reading \<^verbatim>\<open>alternatives[0].content\<close> of a result with no alternative throws.\<close>

datatype error = TypeError

text \<open>\<^verbatim>\<open>results.map(r => r.alternatives[0].content)\<close>.\<close>

fun map_content :: "TranscriptResult list \<Rightarrow> error + jsstring list" where
  "map_content [] = Inr []"
| "map_content (r # rs) =
     (case alternatives r of
        [] \<Rightarrow> Inl TypeError
      | a # _ \<Rightarrow> (case map_content rs of Inl e \<Rightarrow> Inl e | Inr cs \<Rightarrow> Inr (content a # cs)))"

text \<open>\<^verbatim>\<open>results[0]?.alternatives[0]?.speaker || 'S1'\<close>: a missing and an empty label
  both give the placeholder.\<close>

definition resolve_speaker :: "TranscriptResult list \<Rightarrow> jsstring" where
  "resolve_speaker rs =
     (case rs of
        [] \<Rightarrow> js ''S1''
      | r # _ \<Rightarrow>
          (case alternatives r of
             [] \<Rightarrow> js ''S1''
           | a # _ \<Rightarrow>
               (case speaker a of
                  None \<Rightarrow> js ''S1''
                | Some sp \<Rightarrow> if sp = [] then js ''S1'' else sp)))"

section \<open>The speaker-turn segmenter of the multi-session server\<close>

text \<open>
  The value of the \<^verbatim>\<open>clients\<close> map for one session.  A \<^verbatim>\<open>RealtimeClient\<close>
  object is opaque to the server, which only tests the field against \<^verbatim>\<open>null\<close>.
\<close>

datatype client = RealtimeClient

record session =
  client :: "client option"
  isConnected :: bool
  isConnecting :: bool
  currentSpeaker :: jsstring
  currentText :: jsstring
  speakerTexts :: "(jsstring \<times> jsstring) list"

text \<open>
  A display segment.  Its third field, the time of day read from the clock when the segment
  is built, is not modelled.
\<close>

record segment =
  seg_speaker :: jsstring
  seg_text :: jsstring

text \<open>What \<^verbatim>\<open>socket.emit\<close> sends: \<^verbatim>\<open>'transcription'\<close> with the segment, the
  \<^verbatim>\<open>isPartial\<close> flag and the session id, or \<^verbatim>\<open>'error'\<close> with a message and the
  session id.\<close>

datatype emission =
    Transcription segment bool jsstring
  | ErrorMessage jsstring jsstring

text \<open>The branch of an \<^verbatim>\<open>AddPartialTranscript\<close> message.\<close>

definition partialTranscript ::
  "jsstring \<Rightarrow> session \<Rightarrow> jsstring \<Rightarrow> jsstring \<Rightarrow> session \<times> emission list" where
  "partialTranscript sessionId s spk formattedText =
     (if spk = currentSpeaker s \<or> currentSpeaker s = []
      then (s, [Transcription
                  \<lparr>seg_speaker = spk,
                   seg_text = trim (currentText s
                     @ (if currentText s \<noteq> [] \<and> \<not> starts_with_punct formattedText
                        then js '' '' else [])
                     @ formattedText)\<rparr>
                  True sessionId])
      else (s, []))"

text \<open>The branch of an \<^verbatim>\<open>AddTranscript\<close> message, first part: a change of speaker
  emits the open turn and starts a new one, otherwise the text is appended; then the
  speaker is stored.\<close>

definition accumulate ::
  "jsstring \<Rightarrow> session \<Rightarrow> jsstring \<Rightarrow> jsstring \<Rightarrow> session \<times> emission list" where
  "accumulate sessionId s spk formattedText =
     (if spk \<noteq> currentSpeaker s \<and> currentText s \<noteq> []
      then (s\<lparr>currentText := formattedText, currentSpeaker := spk\<rparr>,
            [Transcription
               \<lparr>seg_speaker = currentSpeaker s, seg_text = trim (currentText s)\<rparr>
               False sessionId])
      else (s\<lparr>currentText :=
                 (if currentText s \<noteq> []
                  then currentText s
                    @ (if starts_with_punct formattedText then [] else js '' '')
                    @ formattedText
                  else formattedText),
               currentSpeaker := spk\<rparr>, []))"

text \<open>Second part: a text that ends with a terminal mark is emitted and the turn is closed.\<close>

definition autoClose :: "jsstring \<Rightarrow> session \<Rightarrow> session \<times> emission list" where
  "autoClose sessionId s =
     (if ends_with_terminal (currentText s)
      then (s\<lparr>currentText := [], currentSpeaker := []\<rparr>,
            [Transcription
               \<lparr>seg_speaker = currentSpeaker s, seg_text = trim (currentText s)\<rparr>
               False sessionId])
      else (s, []))"

definition addTranscript ::
  "jsstring \<Rightarrow> session \<Rightarrow> jsstring \<Rightarrow> jsstring \<Rightarrow> session \<times> emission list" where
  "addTranscript sessionId s spk formattedText =
     (let (s1, out1) = accumulate sessionId s spk formattedText;
          (s2, out2) = autoClose sessionId s1
      in (s2, out1 @ out2))"

text \<open>The \<^verbatim>\<open>receiveMessage\<close> listener that the \<^verbatim>\<open>audioData\<close> handler registers on
  the client of a session.\<close>

definition receiveMessage ::
  "jsstring \<Rightarrow> session \<Rightarrow> TranscriptMessage \<Rightarrow> error + session \<times> emission list" where
  "receiveMessage sessionId s evt =
     (if \<not> isConnected s \<and> message evt = RecognitionStarted
      then Inr (s\<lparr>isConnected := True, isConnecting := False\<rparr>, [])
      else if message evt \<noteq> AddTranscript \<and> message evt \<noteq> AddPartialTranscript
      then Inr (s, [])
      else
        (case map_content (results evt) of
           Inl e \<Rightarrow> Inl e
         | Inr cs \<Rightarrow>
             (let text = trim (join cs) in
              if text = [] then Inr (s, [])
              else
                (let spk = resolve_speaker (results evt);
                     formattedText = formatText text
                 in if message evt = AddPartialTranscript
                    then Inr (partialTranscript sessionId s spk formattedText)
                    else Inr (addTranscript sessionId s spk formattedText)))))"

text \<open>
  What one message leaves behind.  The listener throws, if at all, before its first
  assignment and its first \<^verbatim>\<open>emit\<close>, so a message that makes it throw has changed
  nothing and emitted nothing.  What the exception does after that is not in this function
  but in \<open>run\<close>.
\<close>

definition dispatch :: "jsstring \<Rightarrow> session \<Rightarrow> TranscriptMessage \<Rightarrow> session \<times> emission list" where
  "dispatch sessionId s evt =
     (case receiveMessage sessionId s evt of Inl _ \<Rightarrow> (s, []) | Inr r \<Rightarrow> r)"

text \<open>
  The messages of one session, in the order in which they arrive.  The listener has no
  \<^verbatim>\<open>try\<close> and the server no handler for uncaught exceptions: an exception of the
  listener ends the server process, and the messages after it are not processed.
  \<open>survives\<close> tells whether the process is still there after the messages.
\<close>

fun run :: "jsstring \<Rightarrow> session \<Rightarrow> TranscriptMessage list \<Rightarrow> session \<times> emission list" where
  "run sessionId s [] = (s, [])"
| "run sessionId s (evt # evts) =
     (case receiveMessage sessionId s evt of
        Inl e \<Rightarrow> (s, [])
      | Inr r \<Rightarrow>
          (let (s2, out2) = run sessionId (fst r) evts
           in (s2, snd r @ out2)))"

fun survives :: "jsstring \<Rightarrow> session \<Rightarrow> TranscriptMessage list \<Rightarrow> bool" where
  "survives sessionId s [] = True"
| "survives sessionId s (evt # evts) =
     (case receiveMessage sessionId s evt of
        Inl e \<Rightarrow> False
      | Inr r \<Rightarrow> survives sessionId (fst r) evts)"

text \<open>The value that \<^verbatim>\<open>getSession\<close> stores for a session id it has not seen.\<close>

definition new_session :: session where
  "new_session =
     \<lparr>client = None, isConnected = False, isConnecting = False,
      currentSpeaker = [], currentText = [], speakerTexts = []\<rparr>"

section \<open>The segmenter of the single-session server\<close>

text \<open>The variables of one connection of the single-session server.\<close>

record connection =
  client_single :: "client option"
  isConnected_single :: bool
  currentSpeaker_single :: jsstring
  currentText_single :: jsstring
  speakerTexts_single :: "(jsstring \<times> jsstring) list"

text \<open>Its emissions carry no session id.\<close>

datatype emission_single =
    Transcription_single segment bool
  | ErrorMessage_single jsstring

text \<open>The \<^verbatim>\<open>receiveMessage\<close> listener of the single-session server.\<close>

definition receiveMessage_single ::
  "connection \<Rightarrow> TranscriptMessage \<Rightarrow> error + connection \<times> emission_single list" where
  "receiveMessage_single c evt =
     (if message evt \<noteq> AddTranscript \<and> message evt \<noteq> AddPartialTranscript
      then Inr (c, [])
      else
        (case map_content (results evt) of
           Inl e \<Rightarrow> Inl e
         | Inr cs \<Rightarrow>
             (let text = trim (join cs) in
              if text = [] then Inr (c, [])
              else
                (let spk = resolve_speaker (results evt);
                     formattedText = formatText text
                 in if message evt = AddPartialTranscript
                    then
                      (if spk = currentSpeaker_single c \<or> currentSpeaker_single c = []
                       then Inr (c, [Transcription_single
                              \<lparr>seg_speaker = spk,
                               seg_text = trim (currentText_single c
                                 @ (if currentText_single c \<noteq> []
                                       \<and> \<not> starts_with_punct formattedText
                                    then js '' '' else [])
                                 @ formattedText)\<rparr> True])
                       else Inr (c, []))
                    else
                      (let (c1, out1) =
                             (if spk \<noteq> currentSpeaker_single c \<and> currentText_single c \<noteq> []
                              then (c\<lparr>currentText_single := formattedText\<rparr>,
                                    [Transcription_single
                                       \<lparr>seg_speaker = currentSpeaker_single c,
                                        seg_text = trim (currentText_single c)\<rparr> False])
                              else (c\<lparr>currentText_single :=
                                         (if currentText_single c \<noteq> []
                                          then currentText_single c
                                            @ (if starts_with_punct formattedText
                                               then [] else js '' '')
                                            @ formattedText
                                          else formattedText)\<rparr>, []));
                           c2 = c1\<lparr>currentSpeaker_single := spk\<rparr>
                       in if ends_with_terminal (currentText_single c2)
                          then Inr (c2\<lparr>currentText_single := [], currentSpeaker_single := []\<rparr>,
                                    out1 @ [Transcription_single
                                       \<lparr>seg_speaker = currentSpeaker_single c2,
                                        seg_text = trim (currentText_single c2)\<rparr> False])
                          else Inr (c2, out1))))))"

text \<open>What one message leaves behind; a listener that throws has changed and emitted
  nothing.\<close>

definition dispatch_single ::
  "connection \<Rightarrow> TranscriptMessage \<Rightarrow> connection \<times> emission_single list" where
  "dispatch_single c evt =
     (case receiveMessage_single c evt of Inl _ \<Rightarrow> (c, []) | Inr r \<Rightarrow> r)"

text \<open>The messages of the connection in their order; here too an exception of the
  listener ends the server process.\<close>

fun run_single ::
  "connection \<Rightarrow> TranscriptMessage list \<Rightarrow> connection \<times> emission_single list" where
  "run_single c [] = (c, [])"
| "run_single c (evt # evts) =
     (case receiveMessage_single c evt of
        Inl e \<Rightarrow> (c, [])
      | Inr r \<Rightarrow>
          (let (c2, out2) = run_single (fst r) evts
           in (c2, snd r @ out2)))"

fun survives_single :: "connection \<Rightarrow> TranscriptMessage list \<Rightarrow> bool" where
  "survives_single c [] = True"
| "survives_single c (evt # evts) =
     (case receiveMessage_single c evt of
        Inl e \<Rightarrow> False
      | Inr r \<Rightarrow> survives_single (fst r) evts)"

text \<open>The variables as the connection handler declares them.\<close>

definition new_connection :: connection where
  "new_connection =
     \<lparr>client_single = None, isConnected_single = False,
      currentSpeaker_single = [], currentText_single = [], speakerTexts_single = []\<rparr>"

text \<open>An emission of the multi-session server without its session id.\<close>

fun untag :: "emission \<Rightarrow> emission_single" where
  "untag (Transcription seg p sessionId) = Transcription_single seg p"
| "untag (ErrorMessage m sessionId) = ErrorMessage_single m"

section \<open>The sessions of one caller connection\<close>

text \<open>The \<^verbatim>\<open>clients\<close> map of a socket: session id to session.\<close>

type_synonym registry = "jsstring \<Rightarrow> session option"

text \<open>
  What a handler does to the outside, in the order in which it does it: an emission to the
  caller, and the calls of \<^verbatim>\<open>createSpeechmaticsJWT\<close>, \<^verbatim>\<open>client.start\<close>,
  \<^verbatim>\<open>client.sendAudio\<close> and \<^verbatim>\<open>client.stopRecognition\<close> for a session.
\<close>

datatype effect =
    Emit emission
  | CreateJWT jsstring
  | Start jsstring
  | SendAudio jsstring
  | StopRecognition jsstring

text \<open>\<^verbatim>\<open>data.sessionId || 'default'\<close>.\<close>

definition session_id_or_default :: "jsstring option \<Rightarrow> jsstring" where
  "session_id_or_default i =
     (case i of None \<Rightarrow> js ''default'' | Some x \<Rightarrow> if x = [] then js ''default'' else x)"

definition getSession :: "jsstring \<Rightarrow> registry \<Rightarrow> registry \<times> session" where
  "getSession sessionId clients =
     (case clients sessionId of
        None \<Rightarrow> (clients(sessionId \<mapsto> new_session), new_session)
      | Some s \<Rightarrow> (clients, s))"

text \<open>
  \<^verbatim>\<open>cleanupClient\<close>.  The call of \<^verbatim>\<open>stopRecognition\<close> is not awaited; a rejection
  of its promise and an exception it throws are both caught and dropped, so the function
  has no failing result.  The entry stays in the map.
\<close>

definition cleanupClient :: "jsstring \<Rightarrow> registry \<Rightarrow> registry \<times> effect list" where
  "cleanupClient sessionId clients =
     (case clients sessionId of
        None \<Rightarrow> (clients, [])
      | Some s \<Rightarrow>
          (case client s of
             None \<Rightarrow> (clients, [])
           | Some c \<Rightarrow>
               (clients(sessionId \<mapsto>
                  s\<lparr>client := None, isConnected := False, isConnecting := False,
                    currentSpeaker := [], currentText := [], speakerTexts := []\<rparr>),
                [StopRecognition sessionId])))"

text \<open>The \<^verbatim>\<open>stopRecording\<close> handler; its argument is \<^verbatim>\<open>data?.sessionId\<close>.\<close>

definition stopRecording :: "jsstring option \<Rightarrow> registry \<Rightarrow> registry \<times> effect list" where
  "stopRecording dataSessionId clients =
     (let sessionId = session_id_or_default dataSessionId in
      case clients sessionId of
        None \<Rightarrow> (clients, [])
      | Some s \<Rightarrow>
          (if client s = None then (clients, [])
           else
             (let out =
                    (if currentText s \<noteq> []
                     then [Emit (Transcription
                             \<lparr>seg_speaker = currentSpeaker s,
                              seg_text = formatText (trim (currentText s))\<rparr>
                             False sessionId)]
                     else []);
                  (clients1, eff) = cleanupClient sessionId clients
              in (clients1, out @ eff))))"

text \<open>
  A message of the recognition service for the session \<open>sessionId\<close>, given to the listener
  that the session's client carries.  A listener runs to its end before the next one
  starts.  The exception of a listener is the result \<open>Inl\<close>.
\<close>

definition deliver ::
  "registry \<Rightarrow> jsstring \<times> TranscriptMessage \<Rightarrow> error + registry \<times> emission list" where
  "deliver clients m =
     (case clients (fst m) of
        None \<Rightarrow> Inr (clients, [])
      | Some s \<Rightarrow>
          (case receiveMessage (fst m) s (snd m) of
             Inl e \<Rightarrow> Inl e
           | Inr r \<Rightarrow> Inr (clients(fst m \<mapsto> fst r), snd r)))"

text \<open>
  The messages of all sessions of the connection, in the order in which they arrive.  The
  sessions live in one server process: the exception of one listener ends it for all of
  them, and no later message of any session is processed.  \<open>survives_all\<close> tells whether
  the process is still there after the messages.
\<close>

fun deliver_all ::
  "registry \<Rightarrow> (jsstring \<times> TranscriptMessage) list \<Rightarrow> registry \<times> emission list" where
  "deliver_all clients [] = (clients, [])"
| "deliver_all clients (m # ms) =
     (case deliver clients m of
        Inl e \<Rightarrow> (clients, [])
      | Inr r \<Rightarrow>
          (let (clients2, out2) = deliver_all (fst r) ms
           in (clients2, snd r @ out2)))"

fun survives_all :: "registry \<Rightarrow> (jsstring \<times> TranscriptMessage) list \<Rightarrow> bool" where
  "survives_all clients [] = True"
| "survives_all clients (m # ms) =
     (case deliver clients m of
        Inl e \<Rightarrow> False
      | Inr r \<Rightarrow> survives_all (fst r) ms)"

text \<open>The session id that an emission carries.\<close>

fun emission_session :: "emission \<Rightarrow> jsstring" where
  "emission_session (Transcription seg p sessionId) = sessionId"
| "emission_session (ErrorMessage m sessionId) = sessionId"

subsection \<open>The audio handler\<close>

text \<open>The payload of \<^verbatim>\<open>audioData\<close>.\<close>

record audioData_message =
  sessionId :: "jsstring option"
  doctorSpeakerIdentifier :: "jsstring option"
  audio :: jsstring

text \<open>
  What the handler meets outside the server while it works on one chunk: the value of the
  environment variable, whether the promises of \<^verbatim>\<open>createSpeechmaticsJWT\<close>,
  \<^verbatim>\<open>client.start\<close> and \<^verbatim>\<open>client.sendAudio\<close> resolve, and whether the
  \<^verbatim>\<open>RecognitionStarted\<close> message of the session's client arrives before the ten
  seconds of the wait are over.
\<close>

record environment =
  SPEECHMATICS_API_KEY :: "jsstring option"
  jwt_resolves :: bool
  start_resolves :: bool
  recognition_started :: bool
  sendAudio_resolves :: bool

text \<open>The outer \<^verbatim>\<open>catch\<close> of the handler, and the \<^verbatim>\<open>catch\<close> around the connection.\<close>

definition audio_error :: "jsstring \<Rightarrow> registry \<Rightarrow> effect list \<Rightarrow> registry \<times> effect list" where
  "audio_error sid clients eff =
     (let (clients1, eff1) = cleanupClient sid clients
      in (clients1,
          eff @ eff1 @ [Emit (ErrorMessage (js ''Error processing audio'') sid)]))"

definition connection_error ::
  "jsstring \<Rightarrow> registry \<Rightarrow> effect list \<Rightarrow> registry \<times> effect list" where
  "connection_error sid clients eff =
     (let (clients1, eff1) = cleanupClient sid clients
      in (clients1,
          eff @ eff1
            @ [Emit (ErrorMessage (js ''Connection error with speech service'') sid)]))"

text \<open>
  The end of the handler: \<^verbatim>\<open>Buffer.from(data.audio.split(',')[1], 'base64')\<close> throws
  when the text has no comma (the second piece is \<^verbatim>\<open>undefined\<close>); then the audio
  is sent when the session has a client and is connected.
\<close>

definition forward_audio ::
  "environment \<Rightarrow> audioData_message \<Rightarrow> jsstring \<Rightarrow> session \<Rightarrow> registry \<Rightarrow> effect list
     \<Rightarrow> registry \<times> effect list" where
  "forward_audio env data sid s clients eff =
     (if 44 \<notin> set (audio data) then audio_error sid clients eff
      else if client s \<noteq> None \<and> isConnected s
      then (if sendAudio_resolves env then (clients, eff @ [SendAudio sid])
            else audio_error sid clients (eff @ [SendAudio sid]))
      else audio_error sid clients eff)"

text \<open>
  The wait for the connection.  Only the listener sets \<^verbatim>\<open>isConnected\<close>, when the
  \<^verbatim>\<open>RecognitionStarted\<close> message of the client that the session holds reaches it;
  without that message the promise is rejected after ten seconds.
\<close>

definition wait_connected ::
  "environment \<Rightarrow> audioData_message \<Rightarrow> jsstring \<Rightarrow> session \<Rightarrow> registry \<Rightarrow> effect list
     \<Rightarrow> registry \<times> effect list" where
  "wait_connected env data sid s clients eff =
     (if \<not> isConnected s
      then (if recognition_started env \<and> client s \<noteq> None
            then (let s1 = fst (dispatch sid s \<lparr>message = RecognitionStarted, results = []\<rparr>)
                  in forward_audio env data sid s1 (clients(sid \<mapsto> s1)) eff)
            else audio_error sid clients eff)
      else forward_audio env data sid s clients eff)"

text \<open>The \<^verbatim>\<open>audioData\<close> handler.\<close>

definition audioData ::
  "environment \<Rightarrow> audioData_message \<Rightarrow> registry \<Rightarrow> registry \<times> effect list" where
  "audioData env data clients0 =
     (let sid = session_id_or_default (sessionId data);
          (clients, s) = getSession sid clients0
      in if client s = None \<and> \<not> isConnecting s
         then
           (let s1 = s\<lparr>isConnecting := True\<rparr> in
            if SPEECHMATICS_API_KEY env = None \<or> SPEECHMATICS_API_KEY env = Some []
            then audio_error sid (clients(sid \<mapsto> s1)) []
            else
              (let s2 = s1\<lparr>client := Some RealtimeClient\<rparr>;
                   clients2 = clients(sid \<mapsto> s2)
               in if \<not> jwt_resolves env
                  then connection_error sid clients2 [CreateJWT sid]
                  else if \<not> start_resolves env
                  then connection_error sid clients2 [CreateJWT sid, Start sid]
                  else wait_connected env data sid s2 clients2 [CreateJWT sid, Start sid]))
         else wait_connected env data sid s clients [])"

section \<open>Notions used by the properties\<close>

text \<open>The text of an event as the listener normalizes it: the fragments joined with a
  space and trimmed (\<^verbatim>\<open>text\<close>), then formatted (\<^verbatim>\<open>formattedText\<close>).\<close>

definition normalizeText :: "jsstring list \<Rightarrow> jsstring" where
  "normalizeText fragments = formatText (trim (join fragments))"

text \<open>No white space next to a punctuation mark.\<close>

fun clean :: "jsstring \<Rightarrow> bool" where
  "clean (x # y # zs) =
     ((is_space x \<longrightarrow> \<not> is_punct y) \<and> (is_punct x \<longrightarrow> \<not> is_space y) \<and> clean (y # zs))"
| "clean _ = True"

text \<open>No white space at either end.\<close>

definition trimmed :: "jsstring \<Rightarrow> bool" where
  "trimmed s = (s = [] \<or> (\<not> is_space (hd s) \<and> \<not> is_space (last s)))"

text \<open>A message with one result that has one alternative, with a speaker label.\<close>

definition transcript :: "message_kind \<Rightarrow> string \<Rightarrow> string \<Rightarrow> TranscriptMessage" where
  "transcript k spk txt =
     \<lparr>message = k,
      results = [\<lparr>alternatives = [\<lparr>content = js txt, speaker = Some (js spk)\<rparr>]\<rparr>]\<rparr>"

text \<open>A turn is open exactly when a speaker is stored.\<close>

definition open_turn_inv :: "session \<Rightarrow> bool" where
  "open_turn_inv s = ((currentText s \<noteq> []) = (currentSpeaker s \<noteq> []))"

text \<open>A session of the multi-session server and a connection of the single-session server
  hold the same turn.\<close>

definition same_turn :: "session \<Rightarrow> connection \<Rightarrow> bool" where
  "same_turn s c =
     (currentSpeaker s = currentSpeaker_single c \<and> currentText s = currentText_single c)"

text \<open>The messages of the session \<open>a\<close> among the messages of all sessions, and the
  emissions that carry the session id \<open>a\<close>.\<close>

definition for_session ::
  "jsstring \<Rightarrow> (jsstring \<times> TranscriptMessage) list \<Rightarrow> TranscriptMessage list" where
  "for_session a ms = map snd (filter (\<lambda>m. fst m = a) ms)"

definition emitted_for :: "jsstring \<Rightarrow> emission list \<Rightarrow> emission list" where
  "emitted_for a out = filter (\<lambda>e. emission_session e = a) out"

text \<open>A session whose client has started the recognition.\<close>

definition connected_session :: session where
  "connected_session = new_session\<lparr>client := Some RealtimeClient, isConnected := True\<rparr>"

text \<open>A server process without the environment variable, and one with it; in both every
  call to the outside succeeds.\<close>

definition no_key_env :: environment where
  "no_key_env =
     \<lparr>SPEECHMATICS_API_KEY = None, jwt_resolves = True, start_resolves = True,
      recognition_started = True, sendAudio_resolves = True\<rparr>"

definition key_env :: environment where
  "key_env =
     \<lparr>SPEECHMATICS_API_KEY = Some (js ''key''), jwt_resolves = True, start_resolves = True,
      recognition_started = True, sendAudio_resolves = True\<rparr>"

text \<open>An audio chunk for the session \<open>a\<close>.\<close>

definition chunk_a :: audioData_message where
  "chunk_a =
     \<lparr>sessionId = Some (js ''a''), doctorSpeakerIdentifier = None,
      audio = js ''data:audio/webm;base64,AAAA''\<rparr>"

text \<open>A transcript message with one result that has no alternative.\<close>

definition no_alternative :: "message_kind \<Rightarrow> TranscriptMessage" where
  "no_alternative k = \<lparr>message = k, results = [\<lparr>alternatives = []\<rparr>]\<rparr>"

lemmas char_defs = js_def is_space_def is_punct_def is_terminal_def is_line_terminator_def
lemmas string_defs = trim_def match_punct_def formatText_def starts_with_punct_def
  ends_with_terminal_def
lemmas segmenter_defs = transcript_def resolve_speaker_def receiveMessage_def dispatch_def
  partialTranscript_def accumulate_def autoClose_def addTranscript_def new_session_def

section \<open>Text normalization\<close>

lemma punct_not_space: "is_punct c \<Longrightarrow> \<not> is_space c"
  by (auto simp: is_punct_def is_space_def)

lemma line_terminator_space: "is_line_terminator c \<Longrightarrow> is_space c"
  by (auto simp: is_line_terminator_def is_space_def)

lemma space_32: "is_space 32"
  by (simp add: is_space_def)

lemma last_dropWhile: "dropWhile P xs \<noteq> [] \<Longrightarrow> last (dropWhile P xs) = last xs"
  by (induction xs) (auto split: if_splits)

lemma trim_trimmed: "trimmed s \<Longrightarrow> trim s = s"
proof (cases "s = []")
  case True
  then show ?thesis by (simp add: trim_def)
next
  case False
  assume "trimmed s"
  with False have h: "\<not> is_space (hd s)" and l: "\<not> is_space (last s)"
    by (auto simp: trimmed_def)
  from False h have d: "dropWhile is_space s = s"
    by (cases s) auto
  from False obtain ys y where ys: "s = ys @ [y]"
    by (cases s rule: rev_cases) auto
  with l have "dropWhile is_space (rev s) = rev s"
    by simp
  with d show ?thesis by (simp add: trim_def)
qed

lemma trimmed_trim: "trimmed (trim s)"
proof (cases "dropWhile is_space s = []")
  case True
  have "trim s = []"
    by (simp only: trim_def True rev.simps dropWhile.simps)
  then show ?thesis by (simp add: trimmed_def)
next
  case False
  let ?t = "dropWhile is_space s"
  let ?u = "dropWhile is_space (rev ?t)"
  from False have h: "\<not> is_space (hd ?t)"
    by (rule hd_dropWhile)
  from False have "hd ?t \<in> set (rev ?t)" by simp
  with h have u: "?u \<noteq> []"
    by (auto simp: dropWhile_eq_Nil_conv)
  then have hu: "\<not> is_space (hd ?u)" by (rule hd_dropWhile)
  from u have "last ?u = last (rev ?t)" by (rule last_dropWhile)
  also from False have "\<dots> = hd ?t" by (simp add: last_rev)
  finally have lu: "last ?u = hd ?t" .
  from u have "hd (rev ?u) = last ?u" by (simp add: hd_rev)
  moreover from u have "last (rev ?u) = hd ?u" by (simp add: last_rev)
  ultimately show ?thesis using u h hu lu
    by (simp add: trim_def trimmed_def)
qed

lemma match_punct_nonspace:
  "\<not> is_space c \<Longrightarrow>
   match_punct (c # cs) = (if is_punct c then Some (c, dropWhile is_space cs) else None)"
  by (simp add: match_punct_def)

lemma match_punct_space: "is_space c \<Longrightarrow> match_punct (c # cs) = match_punct cs"
  by (simp add: match_punct_def)

lemma match_punct_Nil: "match_punct [] = None"
  by (simp add: match_punct_def)

lemma match_punct_SomeD:
  assumes "match_punct s = Some (p, rest)"
  obtains r where "dropWhile is_space s = p # r" "rest = dropWhile is_space r" "is_punct p"
  using assms by (auto simp: match_punct_def split: list.splits if_splits)

lemma strip_hd:
  "\<not> is_space c \<Longrightarrow> strip_punct_space (c # cs) \<noteq> [] \<and> hd (strip_punct_space (c # cs)) = c"
  by (simp add: match_punct_nonspace)

lemma strip_last:
  "s \<noteq> [] \<Longrightarrow> \<not> is_space (last s) \<Longrightarrow>
   strip_punct_space s \<noteq> [] \<and> last (strip_punct_space s) = last s"
proof (induction s rule: strip_punct_space.induct)
  case 1
  then show ?case by simp
next
  case (2 c cs)
  show ?case
  proof (cases "match_punct (c # cs)")
    case None
    show ?thesis
    proof (cases "cs = []")
      case True
      with None show ?thesis by simp
    next
      case False
      with "2.prems" have "\<not> is_space (last cs)" by simp
      with "2.IH"(1)[OF None False] None False show ?thesis by simp
    qed
  next
    case (Some a)
    obtain p rest where a: "a = (p, rest)" by (cases a)
    with Some have m: "match_punct (c # cs) = Some (p, rest)" by simp
    then obtain r where d: "dropWhile is_space (c # cs) = p # r"
      and r: "rest = dropWhile is_space r" and p: "is_punct p"
      by (rule match_punct_SomeD)
    from d have l: "last (p # r) = last (c # cs)"
      by (metis last_dropWhile list.distinct(1))
    show ?thesis
    proof (cases "rest = []")
      case True
      have "r = []"
      proof (rule ccontr)
        assume "r \<noteq> []"
        then have "last r \<in> set r" by simp
        moreover from True r have "\<forall>x\<in>set r. is_space x"
          by (simp add: dropWhile_eq_Nil_conv)
        ultimately have "is_space (last r)" by blast
        with \<open>r \<noteq> []\<close> l "2.prems" show False by simp
      qed
      with l m True show ?thesis by simp
    next
      case False
      with r have "last rest = last r" by (simp add: last_dropWhile)
      moreover from False r have "r \<noteq> []" by auto
      ultimately have lr: "last rest = last (c # cs)" using l by simp
      with "2.prems" have "\<not> is_space (last rest)" by simp
      from "2.IH"(2)[OF Some a[symmetric] False this] m lr False show ?thesis by simp
    qed
  qed
qed


lemma clean_Cons:
  "clean (x # s) =
     ((s = [] \<or> ((is_space x \<longrightarrow> \<not> is_punct (hd s)) \<and> (is_punct x \<longrightarrow> \<not> is_space (hd s))))
      \<and> clean s)"
  by (cases s) auto

lemma strip_no_match_hd:
  "match_punct s = None \<Longrightarrow> strip_punct_space s \<noteq> [] \<Longrightarrow> \<not> is_punct (hd (strip_punct_space s))"
proof (cases s)
  case Nil
  assume "strip_punct_space s \<noteq> []"
  with Nil show ?thesis by simp
next
  case (Cons c cs)
  assume n: "match_punct s = None"
  show ?thesis
  proof
    assume "is_punct (hd (strip_punct_space s))"
    with n Cons have p: "is_punct c" by simp
    then have "\<not> is_space c" by (rule punct_not_space)
    with p have "match_punct (c # cs) \<noteq> None" by (simp add: match_punct_nonspace)
    with n Cons show False by simp
  qed
qed

lemma clean_strip: "clean (strip_punct_space s)"
proof (induction s rule: strip_punct_space.induct)
  case 1
  show ?case by simp
next
  case (2 c cs)
  show ?case
  proof (cases "match_punct (c # cs)")
    case None
    have c: "clean (strip_punct_space cs)" using "2.IH"(1)[OF None] .
    have np: "\<not> is_space c \<Longrightarrow> \<not> is_punct c"
      using None by (auto simp: match_punct_nonspace)
    have "is_space c \<Longrightarrow> strip_punct_space cs \<noteq> [] \<Longrightarrow>
            \<not> is_punct (hd (strip_punct_space cs))"
    proof -
      assume w: "is_space c" and ne: "strip_punct_space cs \<noteq> []"
      from w None have "match_punct cs = None" by (simp add: match_punct_space)
      then show ?thesis using ne by (rule strip_no_match_hd)
    qed
    with c np None show ?thesis
      by (auto simp: clean_Cons dest: punct_not_space)
  next
    case (Some a)
    obtain p rest where a: "a = (p, rest)" by (cases a)
    with Some have m: "match_punct (c # cs) = Some (p, rest)" by simp
    then obtain r where r: "rest = dropWhile is_space r" and p: "is_punct p"
      by (rule match_punct_SomeD)
    have c: "clean (strip_punct_space rest)" using "2.IH"(2)[OF Some a[symmetric]] .
    have "strip_punct_space rest \<noteq> [] \<Longrightarrow> \<not> is_space (hd (strip_punct_space rest))"
    proof -
      assume ne: "strip_punct_space rest \<noteq> []"
      then have "rest \<noteq> []" by auto
      then obtain d ds where d: "rest = d # ds" by (cases rest) auto
      with r have "\<not> is_space d"
        by (metis hd_dropWhile list.sel(1) list.distinct(1))
      then show ?thesis unfolding d using strip_hd by simp
    qed
    with c p m show ?thesis
      by (auto simp: clean_Cons dest: punct_not_space)
  qed
qed

lemma space_after_punct_Nil_iff: "space_after_punct s = [] \<longleftrightarrow> s = []"
  by (cases s) auto

lemma hd_space_after_punct: "hd (space_after_punct s) = hd s"
  by (cases s) auto

lemma last_space_after_punct: "s \<noteq> [] \<Longrightarrow> last (space_after_punct s) = last s"
  by (induction s) (auto simp: space_after_punct_Nil_iff)

lemma no_match_after_space:
  "clean (c # cs) \<Longrightarrow> is_space c \<Longrightarrow> match_punct (space_after_punct cs) = None"
proof (induction cs arbitrary: c)
  case Nil
  show ?case by (simp add: match_punct_Nil)
next
  case (Cons d ds)
  from Cons.prems have nd: "\<not> is_punct d" and cl: "clean (d # ds)" by auto
  show ?case
  proof (cases "is_space d")
    case True
    with Cons.IH[OF cl True] nd show ?thesis by (simp add: match_punct_space)
  next
    case False
    with nd show ?thesis by (simp add: match_punct_nonspace)
  qed
qed

lemma strip_space_after_punct:
  "clean m \<Longrightarrow> strip_punct_space (space_after_punct m) = m"
proof (induction m)
  case Nil
  show ?case by simp
next
  case (Cons c cs)
  from Cons.prems have cl: "clean cs" by (simp add: clean_Cons)
  note IH = Cons.IH[OF cl]
  show ?case
  proof (cases "is_punct c")
    case True
    then have nw: "\<not> is_space c" by (rule punct_not_space)
    show ?thesis
    proof (cases cs)
      case Nil
      with True nw show ?thesis by (simp add: match_punct_nonspace)
    next
      case (Cons d ds)
      with Cons.prems True have nd: "\<not> is_space d" by simp
      then have "\<not> is_line_terminator d" using line_terminator_space by blast
      moreover from nd Cons have "dropWhile is_space (space_after_punct cs) = space_after_punct cs"
        by simp
      ultimately show ?thesis using True nw IH Cons
        by (simp add: match_punct_nonspace space_32)
    qed
  next
    case False
    show ?thesis
    proof (cases "is_space c")
      case True
      from no_match_after_space[OF Cons.prems True] True False IH show ?thesis
        by (simp add: match_punct_space)
    next
      case nw: False
      with False IH show ?thesis by (simp add: match_punct_nonspace)
    qed
  qed
qed

lemma trimmed_strip: "trimmed s \<Longrightarrow> trimmed (strip_punct_space s)"
proof (cases s)
  case Nil
  then show ?thesis by (simp add: trimmed_def)
next
  case (Cons c cs)
  assume "trimmed s"
  with Cons have h: "\<not> is_space c" and l: "\<not> is_space (last s)" and ne: "s \<noteq> []"
    by (auto simp: trimmed_def)
  from strip_hd[OF h, of cs] strip_last[OF ne l] Cons h l show ?thesis
    by (simp add: trimmed_def)
qed

lemma trimmed_space_after_punct: "trimmed s \<Longrightarrow> trimmed (space_after_punct s)"
  by (auto simp: trimmed_def space_after_punct_Nil_iff hd_space_after_punct last_space_after_punct)

lemma formatText_trimmed:
  "trimmed t \<Longrightarrow> formatText t = space_after_punct (strip_punct_space t)"
  unfolding formatText_def
  by (intro trim_trimmed trimmed_space_after_punct trimmed_strip)

lemma formatText_idem: "trimmed t \<Longrightarrow> formatText (formatText t) = formatText t"
proof -
  assume t: "trimmed t"
  let ?m = "strip_punct_space t"
  have f: "formatText t = space_after_punct ?m" using t by (rule formatText_trimmed)
  have tf: "trimmed (formatText t)" unfolding formatText_def by (rule trimmed_trim)
  have "formatText (formatText t) = space_after_punct (strip_punct_space (formatText t))"
    using tf by (rule formatText_trimmed)
  also have "strip_punct_space (formatText t) = ?m"
    unfolding f using clean_strip by (rule strip_space_after_punct)
  finally show ?thesis using f by simp
qed

lemma formatText_nonempty: "trimmed t \<Longrightarrow> t \<noteq> [] \<Longrightarrow> formatText t \<noteq> []"
proof -
  assume t: "trimmed t" and ne: "t \<noteq> []"
  then obtain c cs where c: "t = c # cs" and h: "\<not> is_space c"
    by (cases t) (auto simp: trimmed_def)
  from strip_hd[OF h, of cs] c have "strip_punct_space t \<noteq> []" by simp
  with formatText_trimmed[OF t] show ?thesis by (simp add: space_after_punct_Nil_iff)
qed


text \<open>
  C7.  Normalizing is idempotent: the normalized text of an event, given again as the
  only fragment of an event, is normalized to itself.
\<close>

theorem normalizeText_idempotent:
  "normalizeText [normalizeText fragments] = normalizeText fragments"
proof -
  let ?t = "trim (join fragments)"
  have t: "trimmed ?t" by (rule trimmed_trim)
  have "trimmed (formatText ?t)" unfolding formatText_def by (rule trimmed_trim)
  then have "trim (formatText ?t) = formatText ?t" by (rule trim_trimmed)
  then show ?thesis using formatText_idem[OF t] by (simp add: normalizeText_def)
qed

section \<open>The segmenter\<close>

lemma receive_Hello:
  "receiveMessage sid new_session (transcript AddTranscript ''S1'' ''Hello'')
   = Inr (new_session\<lparr>currentText := js ''Hello'', currentSpeaker := js ''S1''\<rparr>, [])"
  by (simp add: char_defs string_defs segmenter_defs)

lemma receive_there:
  "receiveMessage sid (new_session\<lparr>currentText := js ''Hello'', currentSpeaker := js ''S1''\<rparr>)
     (transcript AddTranscript ''S1'' ''there.'')
   = Inr (new_session,
      [Transcription \<lparr>seg_speaker = js ''S1'', seg_text = js ''Hello there.''\<rparr> False sid])"
  by (simp add: char_defs string_defs segmenter_defs)

text \<open>
  C1.  A new session that receives the final transcripts \<open>Hello\<close> and \<open>there.\<close> of
  speaker S1 emits nothing at the first message and holds the open turn \<open>Hello\<close> of S1;
  at the second message it emits the final segment of S1 with the text \<open>Hello there.\<close>
  and clears the text and the speaker.  The run of both emits exactly that segment.
\<close>

theorem scenario_hello_there:
  "dispatch sid new_session (transcript AddTranscript ''S1'' ''Hello'')
     = (new_session\<lparr>currentText := js ''Hello'', currentSpeaker := js ''S1''\<rparr>, [])
   \<and> dispatch sid (new_session\<lparr>currentText := js ''Hello'', currentSpeaker := js ''S1''\<rparr>)
         (transcript AddTranscript ''S1'' ''there.'')
     = (new_session\<lparr>currentText := [], currentSpeaker := []\<rparr>,
        [Transcription \<lparr>seg_speaker = js ''S1'', seg_text = js ''Hello there.''\<rparr> False sid])
   \<and> run sid new_session
         [transcript AddTranscript ''S1'' ''Hello'', transcript AddTranscript ''S1'' ''there.'']
     = (new_session\<lparr>currentText := [], currentSpeaker := []\<rparr>,
        [Transcription \<lparr>seg_speaker = js ''S1'', seg_text = js ''Hello there.''\<rparr> False sid])"
proof -
  have n: "new_session\<lparr>currentText := [], currentSpeaker := []\<rparr> = new_session"
    by (simp add: new_session_def)
  show ?thesis
    unfolding n by (simp add: dispatch_def receive_Hello receive_there)
qed

subsection \<open>A change of speaker\<close>

lemma receive_I_feel_fine:
  "receiveMessage sid new_session (transcript AddTranscript ''S1'' ''I feel fine'')
   = Inr (new_session\<lparr>currentText := js ''I feel fine'', currentSpeaker := js ''S1''\<rparr>, [])"
  by (simp add: char_defs string_defs segmenter_defs)

lemma receive_Good_to_hear:
  "receiveMessage sid
     (new_session\<lparr>currentText := js ''I feel fine'', currentSpeaker := js ''S1''\<rparr>)
     (transcript AddTranscript ''S2'' ''Good to hear'')
   = Inr (new_session\<lparr>currentText := js ''Good to hear'', currentSpeaker := js ''S2''\<rparr>,
      [Transcription \<lparr>seg_speaker = js ''S1'', seg_text = js ''I feel fine''\<rparr> False sid])"
  by (simp add: char_defs string_defs segmenter_defs)

text \<open>
  C2.  A final transcript with text, whose speaker is not the stored one while the stored
  text is not empty: the first part of the handler emits the final segment of the stored
  speaker with the trimmed stored text, and stores the normalized text of the message and
  its speaker.  The whole handler then returns that state and that one segment, unless the
  new text ends with a terminal mark, which closes the new turn at once with a second
  segment.  The final transcripts \<open>I feel fine\<close> of S1 and \<open>Good to hear\<close> of S2 emit
  exactly the segment of S1 and leave the turn of S2 open.
\<close>

theorem speaker_change_closes_turn:
  assumes "message evt = AddTranscript"
    and "map_content (results evt) = Inr cs"
    and "trim (join cs) \<noteq> []"
    and "resolve_speaker (results evt) \<noteq> currentSpeaker s"
    and "currentText s \<noteq> []"
  shows "accumulate sid s (resolve_speaker (results evt)) (normalizeText cs) =
           (s\<lparr>currentText := normalizeText cs, currentSpeaker := resolve_speaker (results evt)\<rparr>,
            [Transcription \<lparr>seg_speaker = currentSpeaker s, seg_text = trim (currentText s)\<rparr>
               False sid])
       \<and> receiveMessage sid s evt =
           Inr (if ends_with_terminal (normalizeText cs)
                then (s\<lparr>currentText := [], currentSpeaker := []\<rparr>,
                      [Transcription
                         \<lparr>seg_speaker = currentSpeaker s, seg_text = trim (currentText s)\<rparr>
                         False sid,
                       Transcription
                         \<lparr>seg_speaker = resolve_speaker (results evt),
                          seg_text = trim (normalizeText cs)\<rparr>
                         False sid])
                else (s\<lparr>currentText := normalizeText cs,
                        currentSpeaker := resolve_speaker (results evt)\<rparr>,
                      [Transcription
                         \<lparr>seg_speaker = currentSpeaker s, seg_text = trim (currentText s)\<rparr>
                         False sid]))
       \<and> run sid new_session
             [transcript AddTranscript ''S1'' ''I feel fine'',
              transcript AddTranscript ''S2'' ''Good to hear'']
           = (new_session\<lparr>currentText := js ''Good to hear'', currentSpeaker := js ''S2''\<rparr>,
              [Transcription \<lparr>seg_speaker = js ''S1'', seg_text = js ''I feel fine''\<rparr>
                 False sid])"
proof -
  have "run sid new_session
          [transcript AddTranscript ''S1'' ''I feel fine'',
           transcript AddTranscript ''S2'' ''Good to hear'']
        = (new_session\<lparr>currentText := js ''Good to hear'', currentSpeaker := js ''S2''\<rparr>,
           [Transcription \<lparr>seg_speaker = js ''S1'', seg_text = js ''I feel fine''\<rparr>
              False sid])"
    by (simp add: receive_I_feel_fine receive_Good_to_hear)
  with assms show ?thesis
    by (simp add: receiveMessage_def addTranscript_def accumulate_def autoClose_def Let_def
        normalizeText_def)
qed

theorem speaker_change_closes_turn_witness:
  "message (transcript AddTranscript ''S2'' ''Good to hear'') = AddTranscript
   \<and> map_content (results (transcript AddTranscript ''S2'' ''Good to hear''))
       = Inr [js ''Good to hear'']
   \<and> trim (join [js ''Good to hear'']) \<noteq> []
   \<and> resolve_speaker (results (transcript AddTranscript ''S2'' ''Good to hear''))
       \<noteq> currentSpeaker
           (new_session\<lparr>currentText := js ''I feel fine'', currentSpeaker := js ''S1''\<rparr>)
   \<and> currentText (new_session\<lparr>currentText := js ''I feel fine'', currentSpeaker := js ''S1''\<rparr>)
       \<noteq> []
   \<and> receiveMessage (js ''a'')
         (new_session\<lparr>currentText := js ''I feel fine'', currentSpeaker := js ''S1''\<rparr>)
         (transcript AddTranscript ''S2'' ''Good to hear'')
       = Inr (new_session\<lparr>currentText := js ''Good to hear'', currentSpeaker := js ''S2''\<rparr>,
              [Transcription \<lparr>seg_speaker = js ''S1'', seg_text = js ''I feel fine''\<rparr>
                 False (js ''a'')])"
proof -
  let ?evt = "transcript AddTranscript ''S2'' ''Good to hear''"
  let ?s = "new_session\<lparr>currentText := js ''I feel fine'', currentSpeaker := js ''S1''\<rparr>"
  have h1: "message ?evt = AddTranscript"
    by (simp add: transcript_def)
  have h2: "map_content (results ?evt) = Inr [js ''Good to hear'']"
    by (simp add: transcript_def)
  have h3: "trim (join [js ''Good to hear'']) \<noteq> []"
    by (simp add: char_defs string_defs)
  have h4: "resolve_speaker (results ?evt) \<noteq> currentSpeaker ?s"
    by (simp add: transcript_def resolve_speaker_def js_def)
  have h5: "currentText ?s \<noteq> []"
    by (simp add: js_def)
  have n: "normalizeText [js ''Good to hear''] = js ''Good to hear''"
    by (simp add: normalizeText_def char_defs string_defs)
  have r: "resolve_speaker (results ?evt) = js ''S2''"
    by (simp add: transcript_def resolve_speaker_def js_def)
  have e: "\<not> ends_with_terminal (js ''Good to hear'')"
    by (simp add: char_defs string_defs)
  have t: "trim (js ''I feel fine'') = js ''I feel fine''"
    by (simp add: char_defs string_defs)
  from speaker_change_closes_turn[OF h1 h2 h3 h4 h5, of "js ''a''"]
  have "receiveMessage (js ''a'') ?s ?evt
        = Inr (?s\<lparr>currentText := js ''Good to hear'', currentSpeaker := js ''S2''\<rparr>,
               [Transcription \<lparr>seg_speaker = js ''S1'', seg_text = js ''I feel fine''\<rparr>
                  False (js ''a'')])"
    unfolding n r by (simp add: e t)
  with h1 h2 h3 h4 h5 show ?thesis by simp
qed

subsection \<open>Partial transcripts\<close>

text \<open>
  C5.  A partial transcript never changes the session.  When its speaker is not the
  stored speaker and a speaker is stored, nothing is emitted; in the other case, the
  speaker being the stored one or no speaker being stored, either nothing is emitted (no
  text, or the listener throws) or exactly one partial segment is.
\<close>

theorem partial_other_speaker_suppressed:
  assumes "message evt = AddPartialTranscript"
  shows "fst (dispatch sid s evt) = s
       \<and> (if resolve_speaker (results evt) \<noteq> currentSpeaker s \<and> currentSpeaker s \<noteq> []
          then snd (dispatch sid s evt) = []
          else snd (dispatch sid s evt) = []
             \<or> (\<exists>cs. map_content (results evt) = Inr cs
                  \<and> snd (dispatch sid s evt) =
                      [Transcription
                         \<lparr>seg_speaker = resolve_speaker (results evt),
                          seg_text = trim (currentText s
                            @ (if currentText s \<noteq> [] \<and> \<not> starts_with_punct (normalizeText cs)
                               then js '' '' else [])
                            @ normalizeText cs)\<rparr>
                         True sid]))"
  using assms
  by (auto simp: dispatch_def receiveMessage_def partialTranscript_def Let_def normalizeText_def
      split: sum.splits)

theorem partial_other_speaker_suppressed_witness:
  "message (transcript AddPartialTranscript ''S2'' ''Good'') = AddPartialTranscript
   \<and> dispatch (js ''a'')
         (new_session\<lparr>currentText := js ''I feel fine'', currentSpeaker := js ''S1''\<rparr>)
         (transcript AddPartialTranscript ''S2'' ''Good'')
       = (new_session\<lparr>currentText := js ''I feel fine'', currentSpeaker := js ''S1''\<rparr>, [])"
proof -
  let ?evt = "transcript AddPartialTranscript ''S2'' ''Good''"
  let ?s = "new_session\<lparr>currentText := js ''I feel fine'', currentSpeaker := js ''S1''\<rparr>"
  have h: "message ?evt = AddPartialTranscript"
    by (simp add: transcript_def)
  have c: "resolve_speaker (results ?evt) \<noteq> currentSpeaker ?s \<and> currentSpeaker ?s \<noteq> []"
    by (simp add: transcript_def resolve_speaker_def js_def)
  from partial_other_speaker_suppressed[OF h, of "js ''a''" ?s] c
  have "fst (dispatch (js ''a'') ?s ?evt) = ?s \<and> snd (dispatch (js ''a'') ?s ?evt) = []"
    by simp
  then have "dispatch (js ''a'') ?s ?evt = (?s, [])"
    by (simp add: prod_eq_iff)
  with h show ?thesis by simp
qed

subsection \<open>One open turn\<close>

lemma js_S1_nonempty: "js ''S1'' \<noteq> []"
  by (simp add: js_def)

lemma resolve_speaker_nonempty: "resolve_speaker rs \<noteq> []"
  by (simp add: resolve_speaker_def js_S1_nonempty split: list.splits option.splits)

lemma formatText_trim_nonempty: "trim t \<noteq> [] \<Longrightarrow> formatText (trim t) \<noteq> []"
  using formatText_nonempty[OF trimmed_trim] .

lemma addTranscript_inv:
  "fmt \<noteq> [] \<Longrightarrow> spk \<noteq> [] \<Longrightarrow> open_turn_inv (fst (addTranscript sid s spk fmt))"
  by (auto simp: addTranscript_def accumulate_def autoClose_def open_turn_inv_def Let_def)

lemma fst_dispatch:
  "fst (dispatch sid s evt) =
     (if \<not> isConnected s \<and> message evt = RecognitionStarted
      then s\<lparr>isConnected := True, isConnecting := False\<rparr>
      else if message evt \<noteq> AddTranscript \<and> message evt \<noteq> AddPartialTranscript then s
      else
        (case map_content (results evt) of
           Inl e \<Rightarrow> s
         | Inr cs \<Rightarrow>
             if trim (join cs) = [] then s
             else if message evt = AddPartialTranscript then s
             else fst (addTranscript sid s (resolve_speaker (results evt))
                         (formatText (trim (join cs))))))"
  by (simp add: dispatch_def receiveMessage_def partialTranscript_def Let_def split: sum.splits)

lemma dispatch_inv: "open_turn_inv s \<Longrightarrow> open_turn_inv (fst (dispatch sid s evt))"
proof -
  assume i: "open_turn_inv s"
  have c: "open_turn_inv (s\<lparr>isConnected := True, isConnecting := False\<rparr>)"
    using i by (simp add: open_turn_inv_def)
  show ?thesis
    unfolding fst_dispatch
    using i c addTranscript_inv[OF formatText_trim_nonempty resolve_speaker_nonempty]
    by (simp split: sum.splits)
qed

lemma receiveMessage_inv:
  "open_turn_inv s \<Longrightarrow> receiveMessage sid s evt = Inr r \<Longrightarrow> open_turn_inv (fst r)"
  using dispatch_inv[of s sid evt] by (simp add: dispatch_def)

lemma run_inv: "open_turn_inv s \<Longrightarrow> open_turn_inv (fst (run sid s evts))"
proof (induction evts arbitrary: s)
  case Nil
  then show ?case by simp
next
  case (Cons e es)
  show ?case
  proof (cases "receiveMessage sid s e")
    case (Inl x)
    with Cons.prems show ?thesis by simp
  next
    case (Inr r)
    from Cons.IH[OF receiveMessage_inv[OF Cons.prems Inr]] Inr show ?thesis
      by (simp add: split_beta)
  qed
qed

lemma run_append:
  "run sid s (evts @ later) =
     (if survives sid s evts
      then (fst (run sid (fst (run sid s evts)) later),
            snd (run sid s evts) @ snd (run sid (fst (run sid s evts)) later))
      else run sid s evts)"
  by (induction evts arbitrary: s) (simp_all add: split_beta split: sum.splits)

text \<open>
  C6.  From a session whose stored text is not empty exactly when its stored speaker is
  not empty (a new session is one), every sequence of messages leads to such a session
  again, so that there is one open turn or none.  What has been emitted stays as it is:
  the emissions of a longer sequence are those of the shorter one, followed by those of
  the later messages when the process has survived the shorter one and by nothing when an
  exception has ended it.
\<close>

theorem one_open_turn:
  assumes "open_turn_inv s"
  shows "open_turn_inv (fst (run sid s evts))
       \<and> snd (run sid s (evts @ later)) =
           snd (run sid s evts)
           @ (if survives sid s evts then snd (run sid (fst (run sid s evts)) later) else [])
       \<and> open_turn_inv (fst (run sid new_session evts))"
proof -
  have "open_turn_inv new_session"
    by (simp add: open_turn_inv_def new_session_def)
  then have "open_turn_inv (fst (run sid new_session evts))"
    by (rule run_inv)
  with run_inv[OF assms] show ?thesis
    by (simp add: run_append)
qed

theorem one_open_turn_witness:
  "open_turn_inv new_session
   \<and> open_turn_inv
       (fst (run (js ''a'') new_session [transcript AddTranscript ''S1'' ''Hello'']))
   \<and> snd (run (js ''a'') new_session
             ([transcript AddTranscript ''S1'' ''Hello'']
              @ [transcript AddTranscript ''S1'' ''there.'']))
       = snd (run (js ''a'') new_session [transcript AddTranscript ''S1'' ''Hello''])
         @ snd (run (js ''a'')
                  (fst (run (js ''a'') new_session [transcript AddTranscript ''S1'' ''Hello'']))
                  [transcript AddTranscript ''S1'' ''there.''])"
proof -
  have h: "open_turn_inv new_session"
    by (simp add: open_turn_inv_def new_session_def)
  have v: "survives (js ''a'') new_session [transcript AddTranscript ''S1'' ''Hello'']"
    by (simp add: receive_Hello)
  from one_open_turn[OF h, of "js ''a''" "[transcript AddTranscript ''S1'' ''Hello'']"
      "[transcript AddTranscript ''S1'' ''there.'']"] h v
  show ?thesis by simp
qed

subsection \<open>The two servers\<close>

lemma receiveMessage_refines:
  assumes "same_turn s c"
  shows "case receiveMessage sid s evt of
           Inl e \<Rightarrow> receiveMessage_single c evt = Inl e
         | Inr r \<Rightarrow> (case receiveMessage_single c evt of
                       Inl e \<Rightarrow> False
                     | Inr r1 \<Rightarrow> same_turn (fst r) (fst r1) \<and> map untag (snd r) = snd r1)"
  using assms
  by (auto simp: receiveMessage_def receiveMessage_single_def same_turn_def Let_def
      partialTranscript_def addTranscript_def accumulate_def autoClose_def
      split: sum.splits)

text \<open>
  C10.  On the same messages, of whatever kind, a session of the multi-session server and
  a connection of the single-session server that hold the same speaker and text hold the
  same speaker and text afterwards, and the multi-session server emits what the
  single-session server emits, with the session id added.  An exception ends both alike.
\<close>

theorem multi_refines_single:
  assumes "same_turn s c"
  shows "same_turn (fst (run sid s evts)) (fst (run_single c evts))
       \<and> map untag (snd (run sid s evts)) = snd (run_single c evts)
       \<and> survives sid s evts = survives_single c evts"
  using assms
proof (induction evts arbitrary: s c)
  case Nil
  then show ?case by simp
next
  case (Cons e es)
  note step = receiveMessage_refines[OF Cons.prems, where sid = sid and evt = e]
  show ?case
  proof (cases "receiveMessage sid s e")
    case (Inl x)
    with step Cons.prems show ?thesis by simp
  next
    case (Inr r)
    with step obtain r1 where r1: "receiveMessage_single c e = Inr r1"
      and st: "same_turn (fst r) (fst r1)" and out: "map untag (snd r) = snd r1"
      by (auto split: sum.splits)
    from Cons.IH[OF st] Inr r1 out show ?thesis
      by (simp add: split_beta)
  qed
qed

theorem multi_refines_single_witness:
  "same_turn new_session new_connection
   \<and> same_turn
       (fst (run (js ''a'') new_session
          [transcript AddPartialTranscript ''S1'' ''Hel'',
           transcript AddTranscript ''S1'' ''Hello'', transcript AddTranscript ''S1'' ''there.'']))
       (fst (run_single new_connection
          [transcript AddPartialTranscript ''S1'' ''Hel'',
           transcript AddTranscript ''S1'' ''Hello'', transcript AddTranscript ''S1'' ''there.'']))
   \<and> map untag
       (snd (run (js ''a'') new_session
          [transcript AddPartialTranscript ''S1'' ''Hel'',
           transcript AddTranscript ''S1'' ''Hello'', transcript AddTranscript ''S1'' ''there.'']))
     = snd (run_single new_connection
          [transcript AddPartialTranscript ''S1'' ''Hel'',
           transcript AddTranscript ''S1'' ''Hello'', transcript AddTranscript ''S1'' ''there.''])"
proof -
  have h: "same_turn new_session new_connection"
    by (simp add: same_turn_def new_session_def new_connection_def)
  from multi_refines_single[OF h] h show ?thesis by blast
qed

section \<open>The sessions of a connection\<close>

subsection \<open>Cleaning up twice\<close>

text \<open>
  C8.  A second call of \<^verbatim>\<open>cleanupClient\<close> for the same session id leaves the map as the
  first call left it and calls \<^verbatim>\<open>stopRecognition\<close> no more; so does a call for an id
  that is not in the map.  The function has no failing result, and one call stops the
  client at most once.
\<close>

theorem cleanupClient_idempotent:
  "cleanupClient sid (fst (cleanupClient sid clients)) = (fst (cleanupClient sid clients), [])
   \<and> cleanupClient sid (clients(sid := None)) = (clients(sid := None), [])
   \<and> length (snd (cleanupClient sid clients)) \<le> 1"
  by (simp add: cleanupClient_def split: option.splits)

subsection \<open>Interference between sessions\<close>

lemma dispatch_emission_session:
  "e \<in> set (snd (dispatch sid s evt)) \<Longrightarrow> emission_session e = sid"
  by (auto simp: dispatch_def receiveMessage_def Let_def partialTranscript_def
      addTranscript_def accumulate_def autoClose_def split: sum.splits if_splits)

lemma filter_dispatch_same:
  "filter (\<lambda>e. emission_session e = sid) (snd (dispatch sid s evt)) = snd (dispatch sid s evt)"
  by (simp add: filter_id_conv dispatch_emission_session)

lemma filter_dispatch_other:
  "a \<noteq> sid \<Longrightarrow> filter (\<lambda>e. emission_session e = a) (snd (dispatch sid s evt)) = []"
  by (auto simp: filter_empty_conv dest: dispatch_emission_session)

lemma deliver_fst:
  "deliver clients m = Inr r \<Longrightarrow>
   fst r a =
     (if fst m = a then (case clients a of None \<Rightarrow> None
                         | Some s \<Rightarrow> Some (fst (dispatch a s (snd m))))
      else clients a)"
  by (auto simp: deliver_def dispatch_def split: option.splits sum.splits)

lemma deliver_snd:
  "deliver clients m = Inr r \<Longrightarrow>
   emitted_for a (snd r) =
     (if fst m = a then (case clients a of None \<Rightarrow> []
                         | Some s \<Rightarrow> snd (dispatch a s (snd m)))
      else [])"
proof -
  assume d: "deliver clients m = Inr r"
  show ?thesis
  proof (cases "clients (fst m)")
    case None
    with d show ?thesis
      by (auto simp: deliver_def emitted_for_def)
  next
    case (Some s)
    with d have r: "dispatch (fst m) s (snd m) = (fst (dispatch (fst m) s (snd m)), snd r)"
      by (auto simp: deliver_def dispatch_def split: sum.splits)
    then have "snd r = snd (dispatch (fst m) s (snd m))"
      by (simp add: prod_eq_iff)
    with Some show ?thesis
      by (auto simp: emitted_for_def filter_dispatch_same filter_dispatch_other)
  qed
qed

lemma deliver_receives:
  "deliver clients m = Inr r \<Longrightarrow> clients (fst m) = Some s \<Longrightarrow>
   receiveMessage (fst m) s (snd m) = Inr (dispatch (fst m) s (snd m))"
  by (auto simp: deliver_def dispatch_def split: sum.splits)

lemma emitted_for_append: "emitted_for a (xs @ ys) = emitted_for a xs @ emitted_for a ys"
  by (simp add: emitted_for_def)

lemma for_session_Cons:
  "for_session a (m # ms) = (if fst m = a then snd m # for_session a ms else for_session a ms)"
  by (simp add: for_session_def)

lemma deliver_all_unregistered:
  "clients a = None \<Longrightarrow>
   emitted_for a (snd (deliver_all clients ms)) = [] \<and> fst (deliver_all clients ms) a = None"
proof (induction ms arbitrary: clients)
  case Nil
  then show ?case by (simp add: emitted_for_def)
next
  case (Cons m ms)
  show ?case
  proof (cases "deliver clients m")
    case (Inl x)
    with Cons.prems show ?thesis by (simp add: emitted_for_def)
  next
    case (Inr r)
    from deliver_fst[OF Inr, of a] Cons.prems have "fst r a = None"
      by simp
    from Cons.IH[of "fst r", OF this] Cons.prems Inr deliver_snd[OF Inr, of a] show ?thesis
      by (simp add: split_beta emitted_for_append)
  qed
qed

lemma deliver_all_registered:
  "clients a = Some s \<Longrightarrow> survives_all clients ms \<Longrightarrow>
   emitted_for a (snd (deliver_all clients ms)) = snd (run a s (for_session a ms))
   \<and> fst (deliver_all clients ms) a = Some (fst (run a s (for_session a ms)))"
proof (induction ms arbitrary: clients s)
  case Nil
  then show ?case by (simp add: emitted_for_def for_session_def)
next
  case (Cons m ms)
  from Cons.prems(2) obtain r where r: "deliver clients m = Inr r"
    and sv: "survives_all (fst r) ms"
    by (cases "deliver clients m") auto
  show ?case
  proof (cases "fst m = a")
    case True
    with Cons.prems(1) have cm: "clients (fst m) = Some s" by simp
    from deliver_receives[OF r cm] True
    have rm: "receiveMessage a s (snd m) = Inr (dispatch a s (snd m))" by simp
    from deliver_fst[OF r, of a] Cons.prems(1) True
    have "fst r a = Some (fst (dispatch a s (snd m)))"
      by simp
    from Cons.IH[of "fst r" "fst (dispatch a s (snd m))", OF this sv]
      Cons.prems(1) True r rm deliver_snd[OF r, of a]
    show ?thesis
      by (simp add: split_beta emitted_for_append for_session_Cons)
  next
    case False
    from deliver_fst[OF r, of a] Cons.prems(1) False have "fst r a = Some s"
      by simp
    from Cons.IH[of "fst r" s, OF this sv] Cons.prems(1) False r deliver_snd[OF r, of a]
    show ?thesis
      by (simp add: split_beta emitted_for_append for_session_Cons)
  qed
qed

text \<open>As long as no listener throws, the sessions do not interfere: two runs that the
  process survives, with the same session for the id \<open>a\<close> and the same messages for
  \<open>a\<close>, emit the same segments for \<open>a\<close> and end with the same session for \<open>a\<close>.\<close>

lemma isolation_while_no_listener_throws:
  assumes "clients1 a = clients2 a"
    and "for_session a ms1 = for_session a ms2"
    and "survives_all clients1 ms1"
    and "survives_all clients2 ms2"
  shows "emitted_for a (snd (deliver_all clients1 ms1)) = emitted_for a (snd (deliver_all clients2 ms2))
       \<and> fst (deliver_all clients1 ms1) a = fst (deliver_all clients2 ms2) a"
proof (cases "clients2 a")
  case None
  with assms(1) have "clients1 a = None" by simp
  from deliver_all_unregistered[where clients = clients1 and ms = ms1, OF this]
    deliver_all_unregistered[where clients = clients2 and ms = ms2, OF None]
  show ?thesis by simp
next
  case (Some s)
  with assms(1) have "clients1 a = Some s" by simp
  from deliver_all_registered[where clients = clients1 and ms = ms1, OF this assms(3)]
    deliver_all_registered[where clients = clients2 and ms = ms2, OF Some assms(4)] assms(2)
  show ?thesis by simp
qed

lemma receive_no_alternative:
  "receiveMessage sid connected_session (no_alternative AddTranscript) = Inl TypeError"
  by (simp add: receiveMessage_def no_alternative_def connected_session_def new_session_def)

lemma receive_Hello_connected:
  "receiveMessage sid connected_session (transcript AddTranscript ''S1'' ''Hello'')
   = Inr (connected_session\<lparr>currentText := js ''Hello'', currentSpeaker := js ''S1''\<rparr>, [])"
  by (simp add: connected_session_def char_defs string_defs segmenter_defs)

lemma receive_there_connected:
  "receiveMessage sid
     (connected_session\<lparr>currentText := js ''Hello'', currentSpeaker := js ''S1''\<rparr>)
     (transcript AddTranscript ''S1'' ''there.'')
   = Inr (connected_session\<lparr>currentText := [], currentSpeaker := []\<rparr>,
      [Transcription \<lparr>seg_speaker = js ''S1'', seg_text = js ''Hello there.''\<rparr> False sid])"
  by (simp add: connected_session_def char_defs string_defs segmenter_defs)

text \<open>
  C9 is violated by a message that makes a listener throw.  Two connected sessions
  \<open>a\<close> and \<open>b\<close>; the session \<open>a\<close> receives the final transcripts \<open>Hello\<close> and
  \<open>there.\<close> of S1.  When nothing arrives for \<open>b\<close> in between, the segment
  \<open>Hello there.\<close> is emitted for \<open>a\<close>.  When a final transcript with a result that has no
  alternative arrives for \<open>b\<close> in between, the listener of \<open>b\<close> throws, the process is
  gone, and nothing is emitted for \<open>a\<close>: the messages of \<open>a\<close> are the same in both runs,
  its emissions are not.
\<close>

theorem no_alternative_for_b_silences_a:
  "for_session (js ''a'')
     [(js ''a'', transcript AddTranscript ''S1'' ''Hello''),
      (js ''b'', no_alternative AddTranscript),
      (js ''a'', transcript AddTranscript ''S1'' ''there.'')]
   = for_session (js ''a'')
     [(js ''a'', transcript AddTranscript ''S1'' ''Hello''),
      (js ''a'', transcript AddTranscript ''S1'' ''there.'')]
   \<and> emitted_for (js ''a'')
       (snd (deliver_all
              (Map.empty(js ''a'' \<mapsto> connected_session, js ''b'' \<mapsto> connected_session))
              [(js ''a'', transcript AddTranscript ''S1'' ''Hello''),
               (js ''a'', transcript AddTranscript ''S1'' ''there.'')]))
     = [Transcription \<lparr>seg_speaker = js ''S1'', seg_text = js ''Hello there.''\<rparr>
          False (js ''a'')]
   \<and> emitted_for (js ''a'')
       (snd (deliver_all
              (Map.empty(js ''a'' \<mapsto> connected_session, js ''b'' \<mapsto> connected_session))
              [(js ''a'', transcript AddTranscript ''S1'' ''Hello''),
               (js ''b'', no_alternative AddTranscript),
               (js ''a'', transcript AddTranscript ''S1'' ''there.'')]))
     = []
   \<and> \<not> survives_all
         (Map.empty(js ''a'' \<mapsto> connected_session, js ''b'' \<mapsto> connected_session))
         [(js ''a'', transcript AddTranscript ''S1'' ''Hello''),
          (js ''b'', no_alternative AddTranscript),
          (js ''a'', transcript AddTranscript ''S1'' ''there.'')]"
proof -
  have ab: "js ''a'' \<noteq> js ''b''" "js ''b'' \<noteq> js ''a''"
    by (simp_all add: js_def)
  show ?thesis
    using ab
    by (simp add: for_session_def emitted_for_def deliver_def
        receive_no_alternative receive_Hello_connected receive_there_connected)
qed

subsection \<open>Stopping a recording\<close>

lemma reset_is_new_session:
  "s\<lparr>client := None, isConnected := False, isConnecting := False,
     currentSpeaker := [], currentText := [], speakerTexts := []\<rparr> = new_session"
  by (simp add: new_session_def)

lemma comma_dot_turn:
  "deliver_all (Map.empty(js ''a'' \<mapsto> connected_session))
     [(js ''a'', transcript AddTranscript ''S1'' ''a,''),
      (js ''a'', transcript AddTranscript ''S1'' ''. b'')]
   = (Map.empty(js ''a'' \<mapsto>
        connected_session\<lparr>currentText := js ''a,. b'', currentSpeaker := js ''S1''\<rparr>), [])"
  by (simp add: deliver_def connected_session_def char_defs string_defs segmenter_defs
      fun_upd_twist)

text \<open>
  C4, amended.  For a session that is in the map, holds a client and has a text
  that is not empty, \<^verbatim>\<open>stopRecording\<close> emits exactly one final segment, with the stored
  speaker and the stored text trimmed and formatted once more, then stops the client; the
  session stays in the map, with the values of a new session.
\<close>

theorem stopRecording_flushes_and_resets:
  assumes "clients (session_id_or_default i) = Some s"
    and "client s \<noteq> None"
    and "currentText s \<noteq> []"
  shows "stopRecording i clients =
           (clients(session_id_or_default i \<mapsto> new_session),
            [Emit (Transcription
                     \<lparr>seg_speaker = currentSpeaker s,
                      seg_text = formatText (trim (currentText s))\<rparr>
                     False (session_id_or_default i)),
             StopRecognition (session_id_or_default i)])"
  using assms
  by (auto simp: stopRecording_def cleanupClient_def Let_def reset_is_new_session)

theorem stopRecording_flushes_and_resets_witness:
  "(Map.empty(js ''a'' \<mapsto>
      connected_session\<lparr>currentText := js ''I feel fine'', currentSpeaker := js ''S1''\<rparr>))
     (session_id_or_default (Some (js ''a'')))
     = Some (connected_session\<lparr>currentText := js ''I feel fine'', currentSpeaker := js ''S1''\<rparr>)
   \<and> client (connected_session\<lparr>currentText := js ''I feel fine'', currentSpeaker := js ''S1''\<rparr>)
       \<noteq> None
   \<and> currentText
         (connected_session\<lparr>currentText := js ''I feel fine'', currentSpeaker := js ''S1''\<rparr>)
       \<noteq> []
   \<and> stopRecording (Some (js ''a''))
         (Map.empty(js ''a'' \<mapsto>
            connected_session\<lparr>currentText := js ''I feel fine'', currentSpeaker := js ''S1''\<rparr>))
       = (Map.empty(js ''a'' \<mapsto> new_session),
          [Emit (Transcription \<lparr>seg_speaker = js ''S1'', seg_text = js ''I feel fine''\<rparr>
                   False (js ''a'')),
           StopRecognition (js ''a'')])"
proof -
  let ?s = "connected_session\<lparr>currentText := js ''I feel fine'', currentSpeaker := js ''S1''\<rparr>"
  let ?c = "Map.empty(js ''a'' \<mapsto> ?s)"
  have i: "session_id_or_default (Some (js ''a'')) = js ''a''"
    by (simp add: session_id_or_default_def js_def)
  have h1: "?c (session_id_or_default (Some (js ''a''))) = Some ?s"
    by (simp add: i)
  have h2: "client ?s \<noteq> None"
    by (simp add: connected_session_def)
  have h3: "currentText ?s \<noteq> []"
    by (simp add: js_def)
  have t: "formatText (trim (currentText ?s)) = js ''I feel fine''"
    by (simp add: char_defs string_defs)
  have sp: "currentSpeaker ?s = js ''S1''"
    by simp
  from stopRecording_flushes_and_resets[where clients = ?c and i = "Some (js ''a'')" and s = ?s,
      OF h1 h2 h3]
  have "stopRecording (Some (js ''a'')) ?c
        = (Map.empty(js ''a'' \<mapsto> new_session),
           [Emit (Transcription \<lparr>seg_speaker = js ''S1'', seg_text = js ''I feel fine''\<rparr>
                    False (js ''a'')),
            StopRecognition (js ''a'')])"
    unfolding i t sp by simp
  with h1 h2 h3 show ?thesis by simp
qed

text \<open>
  C4 does not hold as it is stated.  A connected session \<open>a\<close> that has received the final
  transcripts \<open>a,\<close> and \<open>. b\<close> of S1 holds the text \<open>a,. b\<close>.  \<^verbatim>\<open>stopRecording\<close> emits
  the text \<open>a, . b\<close>, which is not the trimmed text of the turn, and the session \<open>a\<close> is
  still in the map afterwards.
\<close>

theorem stopRecording_counterexample:
  "stopRecording (Some (js ''a''))
     (Map.empty(js ''a'' \<mapsto>
        connected_session\<lparr>currentText := js ''a,. b'', currentSpeaker := js ''S1''\<rparr>))
   = (Map.empty(js ''a'' \<mapsto> new_session),
      [Emit (Transcription \<lparr>seg_speaker = js ''S1'', seg_text = js ''a, . b''\<rparr> False (js ''a'')),
       StopRecognition (js ''a'')])
   \<and> js ''a, . b'' \<noteq> trim (js ''a,. b'')
   \<and> (Map.empty(js ''a'' \<mapsto> new_session)) (js ''a'') \<noteq> None"
  by (simp add: Let_def stopRecording_def cleanupClient_def session_id_or_default_def
      connected_session_def reset_is_new_session char_defs string_defs new_session_def)

subsection \<open>Errors of the audio handler\<close>

text \<open>The connection that fails resets the session, and the next chunk connects again.\<close>

lemma connection_failure_resets:
  "audioData (key_env\<lparr>start_resolves := False\<rparr>) chunk_a Map.empty =
     (Map.empty(js ''a'' \<mapsto> new_session),
      [CreateJWT (js ''a''), Start (js ''a''), StopRecognition (js ''a''),
       Emit (ErrorMessage (js ''Connection error with speech service'') (js ''a''))])
   \<and> audioData key_env chunk_a (Map.empty(js ''a'' \<mapsto> new_session)) =
     (Map.empty(js ''a'' \<mapsto> connected_session),
      [CreateJWT (js ''a''), Start (js ''a''), SendAudio (js ''a'')])"
  by (simp add: Let_def audioData_def getSession_def connection_error_def cleanupClient_def
      wait_connected_def forward_audio_def session_id_or_default_def key_env_def chunk_a_def
      new_session_def js_def dispatch_def receiveMessage_def connected_session_def)

text \<open>
  C3 is violated when the secret is missing.  Without the environment variable, the first chunk of
  the session \<open>a\<close> sets \<^verbatim>\<open>isConnecting\<close> and throws before a client exists;
  \<^verbatim>\<open>cleanupClient\<close> finds no client and resets nothing, so the session stays in the map
  with \<^verbatim>\<open>isConnecting\<close> set.  The next chunk of \<open>a\<close>, in any environment, asks for no
  credential and starts no connection: it runs into the timeout and emits the error again,
  and the session is as before.
\<close>

theorem missing_key_session_stuck:
  "audioData no_key_env chunk_a Map.empty =
     (Map.empty(js ''a'' \<mapsto> new_session\<lparr>isConnecting := True\<rparr>),
      [Emit (ErrorMessage (js ''Error processing audio'') (js ''a''))])
   \<and> audioData env chunk_a (Map.empty(js ''a'' \<mapsto> new_session\<lparr>isConnecting := True\<rparr>)) =
     (Map.empty(js ''a'' \<mapsto> new_session\<lparr>isConnecting := True\<rparr>),
      [Emit (ErrorMessage (js ''Error processing audio'') (js ''a''))])"
  by (simp add: Let_def audioData_def getSession_def audio_error_def cleanupClient_def
      wait_connected_def forward_audio_def session_id_or_default_def no_key_env_def chunk_a_def
      new_session_def js_def)

end
